theory Spec2Isabelle
  imports Main
begin

section \<open>Package httpclient: a method based HTTP client\<close>

text \<open>
  A shallow embedding of \<^verbatim>\<open>httpclient/httpclient.go\<close>.

  \<^item> A request (\<^verbatim>\<open>*http.Request\<close>) is a value of an arbitrary type \<open>'r\<close>, an error
    (\<^verbatim>\<open>error\<close>) a value of \<open>'e option\<close> with \<open>None\<close> for \<^verbatim>\<open>nil\<close>, a response
    (\<^verbatim>\<open>*http.Response\<close>) a value of \<open>'p option\<close> with \<open>None\<close> for \<^verbatim>\<open>nil\<close>.
  \<^item> A middleware is Go code: it may do anything a closure can do. Everything it can
    touch besides the request is the world \<open>'s\<close>, which is threaded through every call,
    so that whether and when a middleware ran is visible in the world it leaves behind.
  \<^item> Function values are taken as given: a \<^verbatim>\<open>nil\<close> middleware, a \<^verbatim>\<open>nil\<close> transport and a
    middleware that panics or never returns are not values of these types.
  \<^item> Go strings are byte strings, here \<open>string\<close>.
\<close>

subsection \<open>The client\<close>

type_synonym ('r, 'e, 's) ClientMiddleware = "'r \<Rightarrow> 's \<Rightarrow> ('r \<times> 'e option) \<times> 's"

text \<open>The method \<^verbatim>\<open>Do\<close> of \<^verbatim>\<open>*http.Client\<close>, the only use the package makes of the field.\<close>

type_synonym ('r, 'e, 'p, 's) transport = "'r \<Rightarrow> 's \<Rightarrow> ('p option \<times> 'e option) \<times> 's"

record ('r, 'e, 'p, 's) Client =
  client :: "('r, 'e, 'p, 's) transport"
  baseURL :: string
  mw :: "('r, 'e, 's) ClientMiddleware list"

definition New :: "('r, 'e, 'p, 's) transport \<Rightarrow> string \<Rightarrow> ('r, 'e, 'p, 's) Client" where
  "New cl base = \<lparr>client = cl, baseURL = base, mw = []\<rparr>"


subsection \<open>The standard library functions used by \<^verbatim>\<open>Path\<close>\<close>

text \<open>\<^verbatim>\<open>strings.HasPrefix\<close>: \<^verbatim>\<open>len(s) >= len(prefix) && s[:len(prefix)] == prefix\<close>.\<close>

definition HasPrefix :: "string \<Rightarrow> string \<Rightarrow> bool" where
  "HasPrefix s pre = (length pre \<le> length s \<and> take (length pre) s = pre)"

text \<open>
  \<^verbatim>\<open>strings.TrimRight\<close> and \<^verbatim>\<open>strings.TrimLeft\<close> with a cutset of ASCII bytes (the
  package only passes \<^verbatim>\<open>"/"\<close>): the bytes of the cutset are removed from the end,
  respectively from the start.
\<close>

definition TrimRight :: "string \<Rightarrow> string \<Rightarrow> string" where
  "TrimRight s cutset = rev (dropWhile (\<lambda>x. x \<in> set cutset) (rev s))"

definition TrimLeft :: "string \<Rightarrow> string \<Rightarrow> string" where
  "TrimLeft s cutset = dropWhile (\<lambda>x. x \<in> set cutset) s"

text \<open>
  \<^verbatim>\<open>path.Clean\<close>. The output buffer \<^verbatim>\<open>out\<close> is the list of the bytes written so far
  (\<^verbatim>\<open>out.w\<close> is its length), the bytes of \<^verbatim>\<open>path\<close> still to read are \<^verbatim>\<open>path[r:]\<close>.

  The inner loop of the \<^verbatim>\<open>..\<close> case,
  \<^verbatim>\<open>for out.w > dotdot && out.index(out.w) != '/' { out.w-- }\<close>, on the index \<open>w\<close>:
\<close>

fun backtrack :: "string \<Rightarrow> nat \<Rightarrow> nat \<Rightarrow> nat" where
  "backtrack buf dotdot 0 = 0"
| "backtrack buf dotdot (Suc w) =
     (if dotdot < Suc w \<and> buf ! Suc w \<noteq> CHR ''/'' then backtrack buf dotdot w else Suc w)"

text \<open>The loop \<^verbatim>\<open>for r < n\<close>, one equation for each case of its \<^verbatim>\<open>switch\<close>.\<close>

function Clean_loop :: "bool \<Rightarrow> string \<Rightarrow> string \<Rightarrow> nat \<Rightarrow> string" where
  "Clean_loop rooted [] out dotdot = out"
| "Clean_loop rooted (c # cs) out dotdot =
     (if c = CHR ''/'' then Clean_loop rooted cs out dotdot
      else if c = CHR ''.'' \<and> (cs = [] \<or> hd cs = CHR ''/'') then Clean_loop rooted cs out dotdot
      else if c = CHR ''.'' \<and> hd cs = CHR ''.'' \<and> (tl cs = [] \<or> hd (tl cs) = CHR ''/'') then
        (if dotdot < length out then
           Clean_loop rooted (tl cs) (take (backtrack out dotdot (length out - 1)) out) dotdot
         else if rooted then Clean_loop rooted (tl cs) out dotdot
         else Clean_loop rooted (tl cs) ((if 0 < length out then out @ ''/'' else out) @ ''..'')
                (length ((if 0 < length out then out @ ''/'' else out) @ ''..'')))
      else Clean_loop rooted (dropWhile (\<lambda>x. x \<noteq> CHR ''/'') cs)
             ((if (rooted \<and> length out \<noteq> 1) \<or> (\<not> rooted \<and> length out \<noteq> 0)
               then out @ ''/'' else out) @ c # takeWhile (\<lambda>x. x \<noteq> CHR ''/'') cs)
             dotdot)"
  by pat_completeness auto
termination
  by (relation "measure (\<lambda>(rooted, rest, out, dotdot). length rest)")
     (simp_all add: less_Suc_eq_le length_dropWhile_le)

definition Clean :: "string \<Rightarrow> string" where
  "Clean path =
     (if path = [] then ''.''
      else if hd path = CHR ''/''
        then (if Clean_loop True (tl path) ''/'' 1 = [] then ''.''
              else Clean_loop True (tl path) ''/'' 1)
        else (if Clean_loop False path [] 0 = [] then ''.''
              else Clean_loop False path [] 0))"

text \<open>
  \<^verbatim>\<open>path.Join\<close>: the non-empty elements, separated by slashes, then \<^verbatim>\<open>Clean\<close>;
  the empty string when every element is empty.
\<close>

fun Join_buf :: "string list \<Rightarrow> string \<Rightarrow> string" where
  "Join_buf [] buf = buf"
| "Join_buf (e # es) buf =
     Join_buf es
       (if buf = [] \<and> e = [] then buf
        else (if 0 < length buf then buf @ ''/'' else buf) @ e)"

definition Join :: "string list \<Rightarrow> string" where
  "Join elem = (if sum_list (map length elem) = 0 then [] else Clean (Join_buf elem []))"

subsection \<open>\<^verbatim>\<open>Path\<close> and \<^verbatim>\<open>Pathf\<close>\<close>

definition Path :: "('r, 'e, 'p, 's) Client \<Rightarrow> string \<Rightarrow> string" where
  "Path c url =
     (if HasPrefix url ''http'' then url
      else if url = [] then TrimRight (baseURL c) ''/''
      else Join [TrimRight (baseURL c) ''/'', TrimLeft url ''/''])"

text \<open>
  \<^verbatim>\<open>fmt.Sprintf\<close> is a parameter of \<^verbatim>\<open>Pathf\<close>: any function from a format string and
  a list of arguments to a string.
\<close>

definition Pathf ::
  "(string \<Rightarrow> 'v list \<Rightarrow> string) \<Rightarrow> ('r, 'e, 'p, 's) Client \<Rightarrow> string \<Rightarrow> 'v list \<Rightarrow> string" where
  "Pathf Sprintf c url v = Path c (Sprintf url v)"

subsection \<open>\<^verbatim>\<open>Do\<close>\<close>

text \<open>
  The loop \<^verbatim>\<open>for _, mw := range ... { req, err = mw(req); if err != nil { return nil, err } }\<close>.
  \<open>Inl err\<close> is the early return with \<open>err\<close>, \<open>Inr req\<close> is the end of the loop with
  the request as the middleware left it.
\<close>

fun range_mw ::
  "('r, 'e, 's) ClientMiddleware list \<Rightarrow> 'r \<Rightarrow> 's \<Rightarrow> ('e + 'r) \<times> 's" where
  "range_mw [] req s = (Inr req, s)"
| "range_mw (m # ms) req s =
     (case m req s of
        ((req', err), s') \<Rightarrow>
          (case err of Some e \<Rightarrow> (Inl e, s') | None \<Rightarrow> range_mw ms req' s'))"

definition Do ::
  "('r, 'e, 'p, 's) Client \<Rightarrow> 'r \<Rightarrow> ('r, 'e, 's) ClientMiddleware list \<Rightarrow> 's
     \<Rightarrow> ('p option \<times> 'e option) \<times> 's" where
  "Do c req rmw s =
     (case range_mw (mw c) req s of
        (Inl err, s1) \<Rightarrow> ((None, Some err), s1)
      | (Inr req1, s1) \<Rightarrow>
          (case range_mw rmw req1 s1 of
             (Inl err, s2) \<Rightarrow> ((None, Some err), s2)
           | (Inr req2, s2) \<Rightarrow> client c req2 s2))"

subsection \<open>The verb helpers\<close>

text \<open>
  \<^verbatim>\<open>http.NewRequest\<close> and \<^verbatim>\<open>http.NewRequestWithContext\<close> are parameters: they build
  a request from a method, a URL and a body (\<open>None\<close> for \<^verbatim>\<open>nil\<close>), or fail, and
  touch nothing else. A context is a value of an arbitrary type \<open>'c\<close>, a body
  (\<^verbatim>\<open>io.Reader\<close>) of \<open>'b\<close>.
\<close>

type_synonym ('r, 'e, 'b) NewRequest = "string \<Rightarrow> string \<Rightarrow> 'b option \<Rightarrow> 'r \<times> 'e option"

type_synonym ('r, 'e, 'b, 'c) NewRequestWithContext =
  "'c \<Rightarrow> string \<Rightarrow> string \<Rightarrow> 'b option \<Rightarrow> 'r \<times> 'e option"

definition MethodGet :: string where "MethodGet = ''GET''"
definition MethodPost :: string where "MethodPost = ''POST''"
definition MethodPut :: string where "MethodPut = ''PUT''"
definition MethodDelete :: string where "MethodDelete = ''DELETE''"

text \<open>
  What every helper does with the request it built:
  \<^verbatim>\<open>if err != nil { return nil, err }; return c.Do(req, mw)\<close>.
\<close>

definition forward ::
  "'r \<times> 'e option \<Rightarrow> ('r, 'e, 'p, 's) Client \<Rightarrow> ('r, 'e, 's) ClientMiddleware list \<Rightarrow> 's
     \<Rightarrow> ('p option \<times> 'e option) \<times> 's" where
  "forward built c rmw s =
     (case built of
        (req, Some err) \<Rightarrow> ((None, Some err), s)
      | (req, None) \<Rightarrow> Do c req rmw s)"

definition Get ::
  "('r, 'e, 'b) NewRequest \<Rightarrow> ('r, 'e, 'p, 's) Client \<Rightarrow> string
     \<Rightarrow> ('r, 'e, 's) ClientMiddleware list \<Rightarrow> 's \<Rightarrow> ('p option \<times> 'e option) \<times> 's" where
  "Get NewRequest c url rmw s = forward (NewRequest MethodGet url None) c rmw s"

definition GetCtx ::
  "('r, 'e, 'b, 'c) NewRequestWithContext \<Rightarrow> ('r, 'e, 'p, 's) Client \<Rightarrow> 'c \<Rightarrow> string
     \<Rightarrow> ('r, 'e, 's) ClientMiddleware list \<Rightarrow> 's \<Rightarrow> ('p option \<times> 'e option) \<times> 's" where
  "GetCtx NewRequestWithContext c ctx url rmw s =
     forward (NewRequestWithContext ctx MethodGet url None) c rmw s"

definition Post ::
  "('r, 'e, 'b) NewRequest \<Rightarrow> ('r, 'e, 'p, 's) Client \<Rightarrow> string \<Rightarrow> 'b option
     \<Rightarrow> ('r, 'e, 's) ClientMiddleware list \<Rightarrow> 's \<Rightarrow> ('p option \<times> 'e option) \<times> 's" where
  "Post NewRequest c url payload rmw s = forward (NewRequest MethodPost url payload) c rmw s"

definition PostCtx ::
  "('r, 'e, 'b, 'c) NewRequestWithContext \<Rightarrow> ('r, 'e, 'p, 's) Client \<Rightarrow> 'c \<Rightarrow> string
     \<Rightarrow> 'b option \<Rightarrow> ('r, 'e, 's) ClientMiddleware list \<Rightarrow> 's
     \<Rightarrow> ('p option \<times> 'e option) \<times> 's" where
  "PostCtx NewRequestWithContext c ctx url payload rmw s =
     forward (NewRequestWithContext ctx MethodPost url payload) c rmw s"

definition Put ::
  "('r, 'e, 'b) NewRequest \<Rightarrow> ('r, 'e, 'p, 's) Client \<Rightarrow> string \<Rightarrow> 'b option
     \<Rightarrow> ('r, 'e, 's) ClientMiddleware list \<Rightarrow> 's \<Rightarrow> ('p option \<times> 'e option) \<times> 's" where
  "Put NewRequest c url payload rmw s = forward (NewRequest MethodPut url payload) c rmw s"

definition PutCtx ::
  "('r, 'e, 'b, 'c) NewRequestWithContext \<Rightarrow> ('r, 'e, 'p, 's) Client \<Rightarrow> 'c \<Rightarrow> string
     \<Rightarrow> 'b option \<Rightarrow> ('r, 'e, 's) ClientMiddleware list \<Rightarrow> 's
     \<Rightarrow> ('p option \<times> 'e option) \<times> 's" where
  "PutCtx NewRequestWithContext c ctx url payload rmw s =
     forward (NewRequestWithContext ctx MethodPut url payload) c rmw s"

definition Delete ::
  "('r, 'e, 'b) NewRequest \<Rightarrow> ('r, 'e, 'p, 's) Client \<Rightarrow> string
     \<Rightarrow> ('r, 'e, 's) ClientMiddleware list \<Rightarrow> 's \<Rightarrow> ('p option \<times> 'e option) \<times> 's" where
  "Delete NewRequest c url rmw s = forward (NewRequest MethodDelete url None) c rmw s"

definition DeleteCtx ::
  "('r, 'e, 'b, 'c) NewRequestWithContext \<Rightarrow> ('r, 'e, 'p, 's) Client \<Rightarrow> 'c \<Rightarrow> string
     \<Rightarrow> ('r, 'e, 's) ClientMiddleware list \<Rightarrow> 's \<Rightarrow> ('p option \<times> 'e option) \<times> 's" where
  "DeleteCtx NewRequestWithContext c ctx url rmw s =
     forward (NewRequestWithContext ctx MethodDelete url None) c rmw s"

subsection \<open>\<^verbatim>\<open>DecodeJSON\<close>\<close>

text \<open>
  The only field of \<^verbatim>\<open>http.Response\<close> the package reads is the body. The decoder
  (\<^verbatim>\<open>json.NewDecoder(r.Body).Decode\<close>) is a parameter: given the body and the value its
  target holds, it returns the value the target holds afterwards and an error.
  The zero value of \<^verbatim>\<open>T\<close> is a parameter too; the variable \<^verbatim>\<open>zero\<close> is the target.
\<close>

record 'b Response =
  Body :: 'b

definition DecodeJSON ::
  "('b \<Rightarrow> 't \<Rightarrow> 't \<times> 'e option) \<Rightarrow> 't \<Rightarrow> 'b Response \<Rightarrow> 't \<times> 'e option" where
  "DecodeJSON Decode zero r =
     (case Decode (Body r) zero of
        (zero', Some err) \<Rightarrow> (zero', Some err)
      | (zero', None) \<Rightarrow> (zero', None))"

subsection \<open>Calls on a client\<close>





subsection \<open>Middleware applied in order\<close>

text \<open>
  What the specification calls applying a sequence of middleware in order: each one gets
  the request and the world that the one before it left. \<open>returns_at ms i req s\<close> is
  what the middleware at index \<open>i\<close> returns when the ones before it have been applied.
\<close>

fun applied :: "('r, 'e, 's) ClientMiddleware list \<Rightarrow> 'r \<Rightarrow> 's \<Rightarrow> 'r \<times> 's" where
  "applied [] req s = (req, s)"
| "applied (m # ms) req s = (case m req s of ((req', err), s') \<Rightarrow> applied ms req' s')"

definition returns_at ::
  "('r, 'e, 's) ClientMiddleware list \<Rightarrow> nat \<Rightarrow> 'r \<Rightarrow> 's \<Rightarrow> ('r \<times> 'e option) \<times> 's" where
  "returns_at ms i req s = (case applied (take i ms) req s of (req', s') \<Rightarrow> (ms ! i) req' s')"

subsection \<open>Observing the calls\<close>

text \<open>
  A call-counting wrapper: \<open>observe ev f\<close> does what \<open>f\<close> does and appends \<open>ev\<close> to a
  log kept beside the world. The middleware of the client are tagged \<open>ClientMw i\<close>, the
  ones given to the call \<open>CallMw i\<close>, the transport \<open>Send\<close>, so that the log of a call
  of \<^verbatim>\<open>Do\<close> is the sequence of the functions it invoked.
\<close>

datatype event = ClientMw nat | CallMw nat | Send

definition observe ::
  "event \<Rightarrow> ('r \<Rightarrow> 's \<Rightarrow> 'a \<times> 's) \<Rightarrow> 'r \<Rightarrow> 's \<times> event list \<Rightarrow> 'a \<times> 's \<times> event list" where
  "observe ev f req = (\<lambda>(s, log). case f req s of (a, s') \<Rightarrow> (a, s', log @ [ev]))"

definition observe_each ::
  "event list \<Rightarrow> ('r \<Rightarrow> 's \<Rightarrow> 'a \<times> 's) list \<Rightarrow> ('r \<Rightarrow> 's \<times> event list \<Rightarrow> 'a \<times> 's \<times> event list) list" where
  "observe_each evs fs = map (\<lambda>(ev, f). observe ev f) (zip evs fs)"

definition events :: "'a list \<Rightarrow> 'b list \<Rightarrow> event list" where
  "events M N = map ClientMw [0..<length M] @ map CallMw [0..<length N]"

definition observed :: "('r, 'e, 'p, 's) Client \<Rightarrow> ('r, 'e, 'p, 's \<times> event list) Client" where
  "observed c =
     \<lparr>client = observe Send (client c), baseURL = baseURL c,
      mw = observe_each (map ClientMw [0..<length (mw c)]) (mw c)\<rparr>"

definition observed_call ::
  "('r, 'e, 's) ClientMiddleware list \<Rightarrow> ('r, 'e, 's \<times> event list) ClientMiddleware list" where
  "observed_call rmw = observe_each (map CallMw [0..<length rmw]) rmw"

text \<open>The number of middleware that the loop invokes.\<close>

fun invoked :: "('r, 'e, 's) ClientMiddleware list \<Rightarrow> 'r \<Rightarrow> 's \<Rightarrow> nat" where
  "invoked [] req s = 0"
| "invoked (m # ms) req s =
     (case m req s of
        ((req', err), s') \<Rightarrow> (case err of Some e \<Rightarrow> 1 | None \<Rightarrow> Suc (invoked ms req' s')))"

subsection \<open>Example values\<close>

text \<open>
  Requests and responses are numbers, the world is the list of the marks that the
  functions called so far have left.
\<close>

definition example_inc :: "(nat, string, nat list) ClientMiddleware" where
  "example_inc req s = ((req + 1, None), s @ [1])"

definition example_double :: "(nat, string, nat list) ClientMiddleware" where
  "example_double req s = ((req * 2, None), s @ [2])"

definition example_deny :: "(nat, string, nat list) ClientMiddleware" where
  "example_deny req s = ((req, Some ''denied''), s @ [9])"

definition example_send :: "(nat, string, nat, nat list) transport" where
  "example_send req s = ((Some req, None), s @ [3])"

definition example_client :: "(nat, string, nat, nat list) Client" where
  "example_client = \<lparr>client = example_send, baseURL = ''http://base/'', mw = [example_inc]\<rparr>"

definition example_denying_client :: "(nat, string, nat, nat list) Client" where
  "example_denying_client =
     \<lparr>client = example_send, baseURL = ''http://base/'', mw = [example_inc, example_deny]\<rparr>"

definition example_NewRequest :: "(nat, string, string) NewRequest" where
  "example_NewRequest method url body =
     (if HasPrefix url '':'' then (0, Some ''missing protocol scheme'') else (length url, None))"

definition example_NewRequestWithContext :: "(nat, string, string, unit) NewRequestWithContext" where
  "example_NewRequestWithContext ctx method url body = example_NewRequest method url body"

text \<open>
  An example decoder in the manner of \<^verbatim>\<open>encoding/json\<close>, for a target with the integer
  fields \<^verbatim>\<open>A\<close> and \<^verbatim>\<open>B\<close>. A body that is not a JSON value is refused before anything
  is stored. The members of an object are stored one after the other; a member of the
  wrong type is skipped, the first such error is kept, decoding goes on and the error is
  returned at the end.
\<close>

datatype json = JNumber int | JString string

datatype 'a body = Malformed | Scanned 'a

datatype decode_error = SyntaxError | UnmarshalTypeError string

record target =
  A :: int
  B :: int

fun store :: "(string \<times> json) list \<Rightarrow> target \<Rightarrow> decode_error option \<Rightarrow> target \<times> decode_error option" where
  "store [] v saved = (v, saved)"
| "store ((k, JNumber n) # members) v saved =
     (if k = ''a'' then store members (v\<lparr>A := n\<rparr>) saved
      else if k = ''b'' then store members (v\<lparr>B := n\<rparr>) saved
      else store members v saved)"
| "store ((k, JString x) # members) v saved =
     (if k = ''a'' \<or> k = ''b''
      then store members v (case saved of None \<Rightarrow> Some (UnmarshalTypeError k) | Some e \<Rightarrow> Some e)
      else store members v saved)"

fun example_Decode :: "(string \<times> json) list body \<Rightarrow> target \<Rightarrow> target \<times> decode_error option" where
  "example_Decode Malformed v = (v, Some SyntaxError)"
| "example_Decode (Scanned members) v = store members v None"

section \<open>Properties\<close>

subsection \<open>The middleware loop\<close>

lemma range_mw_append:
  "range_mw (xs @ ys) req s =
     (case range_mw xs req s of
        (Inl e, s') \<Rightarrow> (Inl e, s')
      | (Inr req', s') \<Rightarrow> range_mw ys req' s')"
  by (induction xs arbitrary: req s) (auto split: prod.splits option.splits sum.splits)

lemma Do_range_mw:
  "Do c req rmw s =
     (case range_mw (mw c @ rmw) req s of
        (Inl e, s') \<Rightarrow> ((None, Some e), s')
      | (Inr req', s') \<Rightarrow> client c req' s')"
  by (simp add: Do_def range_mw_append split: prod.splits sum.splits)

lemma returns_at_0: "returns_at (m # ms) 0 req s = m req s"
  by (simp add: returns_at_def)

lemma returns_at_Suc:
  "returns_at (m # ms) (Suc i) req s = returns_at ms i (fst (fst (m req s))) (snd (m req s))"
  by (simp add: returns_at_def split: prod.splits)

lemma range_mw_ok:
  "(\<forall>i<length ms. snd (fst (returns_at ms i req s)) = None) \<Longrightarrow>
   range_mw ms req s = (Inr (fst (applied ms req s)), snd (applied ms req s))"
proof (induction ms arbitrary: req s)
  case Nil
  show ?case by simp
next
  case (Cons m ms)
  obtain req' err s' where m: "m req s = ((req', err), s')"
    by (metis prod.exhaust)
  from Cons.prems have "snd (fst (returns_at (m # ms) 0 req s)) = None"
    by blast
  with m have err: "err = None"
    by (simp add: returns_at_0)
  have "\<forall>i<length ms. snd (fst (returns_at ms i req' s')) = None"
  proof (intro allI impI)
    fix i assume "i < length ms"
    then have "snd (fst (returns_at (m # ms) (Suc i) req s)) = None"
      using Cons.prems by simp
    then show "snd (fst (returns_at ms i req' s')) = None"
      by (simp add: returns_at_Suc m)
  qed
  then have "range_mw ms req' s' = (Inr (fst (applied ms req' s')), snd (applied ms req' s'))"
    by (rule Cons.IH)
  then show ?case
    by (simp add: m err)
qed

lemma invoked_ok:
  "(\<forall>i<length ms. snd (fst (returns_at ms i req s)) = None) \<Longrightarrow> invoked ms req s = length ms"
proof (induction ms arbitrary: req s)
  case Nil
  show ?case by simp
next
  case (Cons m ms)
  obtain req' err s' where m: "m req s = ((req', err), s')"
    by (metis prod.exhaust)
  from Cons.prems have "snd (fst (returns_at (m # ms) 0 req s)) = None"
    by blast
  with m have err: "err = None"
    by (simp add: returns_at_0)
  have "\<forall>i<length ms. snd (fst (returns_at ms i req' s')) = None"
  proof (intro allI impI)
    fix i assume "i < length ms"
    then have "snd (fst (returns_at (m # ms) (Suc i) req s)) = None"
      using Cons.prems by simp
    then show "snd (fst (returns_at ms i req' s')) = None"
      by (simp add: returns_at_Suc m)
  qed
  then have "invoked ms req' s' = length ms"
    by (rule Cons.IH)
  then show ?case
    by (simp add: m err)
qed

lemma range_mw_fail:
  "k < length ms \<Longrightarrow> (\<forall>i<k. snd (fst (returns_at ms i req s)) = None) \<Longrightarrow>
   returns_at ms k req s = ((req', Some e), s') \<Longrightarrow>
   range_mw ms req s = (Inl e, s') \<and> invoked ms req s = Suc k"
proof (induction ms arbitrary: k req s)
  case Nil
  then show ?case by simp
next
  case (Cons m ms)
  show ?case
  proof (cases k)
    case 0
    with Cons.prems show ?thesis
      by (simp add: returns_at_0)
  next
    case (Suc j)
    obtain req1 err s1 where m: "m req s = ((req1, err), s1)"
      by (metis prod.exhaust)
    from Cons.prems(2) Suc have "snd (fst (returns_at (m # ms) 0 req s)) = None"
      by blast
    with m have err: "err = None"
      by (simp add: returns_at_0)
    have j: "j < length ms"
      using Cons.prems(1) Suc by simp
    have before: "\<forall>i<j. snd (fst (returns_at ms i req1 s1)) = None"
    proof (intro allI impI)
      fix i assume "i < j"
      then have "snd (fst (returns_at (m # ms) (Suc i) req s)) = None"
        using Cons.prems(2) Suc by simp
      then show "snd (fst (returns_at ms i req1 s1)) = None"
        by (simp add: returns_at_Suc m)
    qed
    have at: "returns_at ms j req1 s1 = ((req', Some e), s')"
      using Cons.prems(3) Suc by (simp add: returns_at_Suc m)
    from Cons.IH [OF j before at] show ?thesis
      by (simp add: m err Suc)
  qed
qed

lemma range_mw_observe_each:
  "length evs = length ms \<Longrightarrow>
   range_mw (observe_each evs ms) req (s, log) =
     (fst (range_mw ms req s), snd (range_mw ms req s), log @ take (invoked ms req s) evs)"
proof (induction ms arbitrary: evs req s log)
  case Nil
  then show ?case by (simp add: observe_each_def)
next
  case (Cons m ms)
  then obtain ev evs' where evs: "evs = ev # evs'" and len: "length evs' = length ms"
    by (cases evs) auto
  have step: "observe_each (ev # evs') (m # ms) = observe ev m # observe_each evs' ms"
    by (simp add: observe_each_def)
  obtain req' err s' where m: "m req s = ((req', err), s')"
    by (metis prod.exhaust)
  show ?case
    unfolding evs step
    by (cases err) (simp_all add: observe_def m Cons.IH [OF len])
qed

lemma observed_append:
  "mw (observed c) @ observed_call rmw = observe_each (events (mw c) rmw) (mw c @ rmw)"
  by (simp add: observed_def observed_call_def observe_each_def events_def)

lemma Do_observed:
  "Do (observed c) req (observed_call rmw) (s, log) =
     (case range_mw (mw c @ rmw) req s of
        (Inl e, s') \<Rightarrow>
          ((None, Some e), s', log @ take (invoked (mw c @ rmw) req s) (events (mw c) rmw))
      | (Inr req', s') \<Rightarrow>
          (fst (client c req' s'), snd (client c req' s'),
           log @ take (invoked (mw c @ rmw) req s) (events (mw c) rmw) @ [Send]))"
proof -
  have len: "length (events (mw c) rmw) = length (mw c @ rmw)"
    by (simp add: events_def)
  have cl: "client (observed c) = observe Send (client c)"
    by (simp add: observed_def)
  show ?thesis
    unfolding Do_range_mw observed_append range_mw_observe_each [OF len] cl
    by (simp add: observe_def split: prod.splits sum.splits)
qed

lemma applied_append:
  "applied (xs @ ys) req s = (case applied xs req s of (req1, s1) \<Rightarrow> applied ys req1 s1)"
  by (induction xs arbitrary: req s) (simp_all split: prod.splits)

text \<open>
  Claim C1. When no middleware fails, \<^verbatim>\<open>Do\<close> applies the middleware of the client in
  the order of registration, then the middleware given to the call in the order given,
  whatever the length of either sequence, passes the request they leave to the transport
  and returns what the transport returns. The log of the observed call is the middleware
  of the client, then those of the call, then the transport.
\<close>

theorem Do_client_then_call_then_send:
  assumes "\<forall>i<length (mw c @ rmw). snd (fst (returns_at (mw c @ rmw) i req s)) = None"
  shows "Do c req rmw s = (case applied (mw c @ rmw) req s of (req', s') \<Rightarrow> client c req' s')
    \<and> applied (mw c @ rmw) req s = (case applied (mw c) req s of (req1, s1) \<Rightarrow> applied rmw req1 s1)
    \<and> Do (observed c) req (observed_call rmw) (s, []) =
        (fst (Do c req rmw s), snd (Do c req rmw s),
         map ClientMw [0..<length (mw c)] @ map CallMw [0..<length rmw] @ [Send])"
proof -
  have r: "range_mw (mw c @ rmw) req s =
      (Inr (fst (applied (mw c @ rmw) req s)), snd (applied (mw c @ rmw) req s))"
    using assms by (rule range_mw_ok)
  have n: "invoked (mw c @ rmw) req s = length (mw c @ rmw)"
    using assms by (rule invoked_ok)
  have a: "Do c req rmw s = (case applied (mw c @ rmw) req s of (req', s') \<Rightarrow> client c req' s')"
    by (simp add: Do_range_mw r split: prod.splits)
  note b = applied_append [of "mw c" rmw req s]
  have c: "Do (observed c) req (observed_call rmw) (s, []) =
        (fst (Do c req rmw s), snd (Do c req rmw s),
         map ClientMw [0..<length (mw c)] @ map CallMw [0..<length rmw] @ [Send])"
    unfolding Do_observed by (simp add: Do_range_mw r n events_def)
  from a b c show ?thesis by blast
qed

theorem Do_client_then_call_then_send_witness:
  "length (mw example_client @ [example_double]) = 2
   \<and> snd (fst (returns_at (mw example_client @ [example_double]) 0 5 [])) = None
   \<and> snd (fst (returns_at (mw example_client @ [example_double]) 1 5 [])) = None
   \<and> Do example_client 5 [example_double] [] = ((Some 12, None), [1, 2, 3])
   \<and> Do (observed example_client) 5 (observed_call [example_double]) ([], []) =
       ((Some 12, None), [1, 2, 3], [ClientMw 0, CallMw 0, Send])"
proof -
  have h: "\<forall>i<length (mw example_client @ [example_double]).
      snd (fst (returns_at (mw example_client @ [example_double]) i 5 [])) = None"
    by (simp add: example_client_def returns_at_def example_inc_def example_double_def
        All_less_Suc)
  show ?thesis
    using h Do_client_then_call_then_send [OF h]
    by (simp add: example_client_def example_inc_def example_double_def example_send_def
        All_less_Suc)
qed

text \<open>
  Claim C2. When the middleware at index \<open>k\<close> of the pipeline (the middleware of the
  client followed by those of the call) is the first to return an error, \<^verbatim>\<open>Do\<close> returns
  a \<^verbatim>\<open>nil\<close> response with that very error and leaves the world as that middleware
  left it: the log holds the first \<open>k + 1\<close> middleware and nothing else, the transport
  is not in it.
\<close>

theorem Do_aborts_at_failing_middleware:
  assumes "k < length (mw c @ rmw)"
    and "\<forall>i<k. snd (fst (returns_at (mw c @ rmw) i req s)) = None"
    and "returns_at (mw c @ rmw) k req s = ((req', Some e), s')"
  shows "Do c req rmw s = ((None, Some e), s')
    \<and> Do (observed c) req (observed_call rmw) (s, []) =
        ((None, Some e), s',
         take (Suc k) (map ClientMw [0..<length (mw c)] @ map CallMw [0..<length rmw]))
    \<and> Send \<notin> set (snd (snd (Do (observed c) req (observed_call rmw) (s, []))))"
proof -
  from range_mw_fail [OF assms]
  have r: "range_mw (mw c @ rmw) req s = (Inl e, s')"
    and n: "invoked (mw c @ rmw) req s = Suc k"
    by simp_all
  have a: "Do c req rmw s = ((None, Some e), s')"
    by (simp add: Do_range_mw r)
  have b: "Do (observed c) req (observed_call rmw) (s, []) =
        ((None, Some e), s',
         take (Suc k) (map ClientMw [0..<length (mw c)] @ map CallMw [0..<length rmw]))"
    by (simp add: Do_observed r n events_def)
  have "Send \<notin> set (map ClientMw [0..<length (mw c)] @ map CallMw [0..<length rmw])"
    by auto
  then have "Send \<notin> set (take (Suc k) (map ClientMw [0..<length (mw c)] @ map CallMw [0..<length rmw]))"
    by (meson in_set_takeD)
  with a b show ?thesis by simp
qed

theorem Do_aborts_at_failing_middleware_witness:
  "1 < length (mw example_denying_client @ [example_double])
   \<and> snd (fst (returns_at (mw example_denying_client @ [example_double]) 0 5 [])) = None
   \<and> returns_at (mw example_denying_client @ [example_double]) 1 5 [] = ((6, Some ''denied''), [1, 9])
   \<and> Do example_denying_client 5 [example_double] [] = ((None, Some ''denied''), [1, 9])
   \<and> Do (observed example_denying_client) 5 (observed_call [example_double]) ([], []) =
       ((None, Some ''denied''), [1, 9], [ClientMw 0, ClientMw 1])"
proof -
  have h1: "1 < length (mw example_denying_client @ [example_double])"
    by (simp add: example_denying_client_def)
  have h2: "\<forall>i<1. snd (fst (returns_at (mw example_denying_client @ [example_double]) i 5 [])) = None"
    by (simp add: example_denying_client_def returns_at_def example_inc_def)
  have h3: "returns_at (mw example_denying_client @ [example_double]) 1 5 [] =
      ((6, Some ''denied''), [1, 9])"
    by (simp add: example_denying_client_def returns_at_def example_inc_def example_deny_def)
  show ?thesis
    using h1 h2 h3 Do_aborts_at_failing_middleware [OF h1 h2 h3]
    by (simp add: example_denying_client_def upt_rec)
qed

subsection \<open>The verb helpers\<close>

lemma forward_failure: "snd built = Some err \<Longrightarrow> forward built c rmw s = ((None, Some err), s)"
  by (cases built) (simp add: forward_def)

text \<open>
  Claim C5. When the construction of the request fails, each of the eight verb helpers
  returns a \<^verbatim>\<open>nil\<close> response with the error of the construction and leaves the world
  untouched, for every client and every middleware given to the call: no middleware and
  no transport has been invoked.
\<close>

theorem verb_helpers_construction_failure:
  "(snd (NewRequest MethodGet url None) = Some err \<longrightarrow>
      Get NewRequest c url rmw s = ((None, Some err), s))
   \<and> (snd (NewRequestWithContext ctx MethodGet url None) = Some err \<longrightarrow>
      GetCtx NewRequestWithContext c ctx url rmw s = ((None, Some err), s))
   \<and> (snd (NewRequest MethodPost url payload) = Some err \<longrightarrow>
      Post NewRequest c url payload rmw s = ((None, Some err), s))
   \<and> (snd (NewRequestWithContext ctx MethodPost url payload) = Some err \<longrightarrow>
      PostCtx NewRequestWithContext c ctx url payload rmw s = ((None, Some err), s))
   \<and> (snd (NewRequest MethodPut url payload) = Some err \<longrightarrow>
      Put NewRequest c url payload rmw s = ((None, Some err), s))
   \<and> (snd (NewRequestWithContext ctx MethodPut url payload) = Some err \<longrightarrow>
      PutCtx NewRequestWithContext c ctx url payload rmw s = ((None, Some err), s))
   \<and> (snd (NewRequest MethodDelete url None) = Some err \<longrightarrow>
      Delete NewRequest c url rmw s = ((None, Some err), s))
   \<and> (snd (NewRequestWithContext ctx MethodDelete url None) = Some err \<longrightarrow>
      DeleteCtx NewRequestWithContext c ctx url rmw s = ((None, Some err), s))"
  by (simp add: Get_def GetCtx_def Post_def PostCtx_def Put_def PutCtx_def Delete_def
      DeleteCtx_def forward_failure)

theorem verb_helpers_construction_failure_witness:
  "snd (example_NewRequest MethodGet ''://x'' None) = Some ''missing protocol scheme''
   \<and> snd (example_NewRequestWithContext () MethodGet ''://x'' None) = Some ''missing protocol scheme''
   \<and> snd (example_NewRequest MethodPost ''://x'' (Some ''{}'')) = Some ''missing protocol scheme''
   \<and> snd (example_NewRequestWithContext () MethodPost ''://x'' (Some ''{}'')) = Some ''missing protocol scheme''
   \<and> snd (example_NewRequest MethodPut ''://x'' (Some ''{}'')) = Some ''missing protocol scheme''
   \<and> snd (example_NewRequestWithContext () MethodPut ''://x'' (Some ''{}'')) = Some ''missing protocol scheme''
   \<and> snd (example_NewRequest MethodDelete ''://x'' None) = Some ''missing protocol scheme''
   \<and> snd (example_NewRequestWithContext () MethodDelete ''://x'' None) = Some ''missing protocol scheme''
   \<and> Get example_NewRequest (observed example_client) ''://x'' (observed_call [example_double]) ([], [])
       = ((None, Some ''missing protocol scheme''), [], [])
   \<and> GetCtx example_NewRequestWithContext (observed example_client) () ''://x'' (observed_call [example_double]) ([], [])
       = ((None, Some ''missing protocol scheme''), [], [])
   \<and> Post example_NewRequest (observed example_client) ''://x'' (Some ''{}'') (observed_call [example_double]) ([], [])
       = ((None, Some ''missing protocol scheme''), [], [])
   \<and> PostCtx example_NewRequestWithContext (observed example_client) () ''://x'' (Some ''{}'') (observed_call [example_double]) ([], [])
       = ((None, Some ''missing protocol scheme''), [], [])
   \<and> Put example_NewRequest (observed example_client) ''://x'' (Some ''{}'') (observed_call [example_double]) ([], [])
       = ((None, Some ''missing protocol scheme''), [], [])
   \<and> PutCtx example_NewRequestWithContext (observed example_client) () ''://x'' (Some ''{}'') (observed_call [example_double]) ([], [])
       = ((None, Some ''missing protocol scheme''), [], [])
   \<and> Delete example_NewRequest (observed example_client) ''://x'' (observed_call [example_double]) ([], [])
       = ((None, Some ''missing protocol scheme''), [], [])
   \<and> DeleteCtx example_NewRequestWithContext (observed example_client) () ''://x'' (observed_call [example_double]) ([], [])
       = ((None, Some ''missing protocol scheme''), [], [])"
proof -
  have h: "snd (example_NewRequest verb ''://x'' p) = Some ''missing protocol scheme''"
    "snd (example_NewRequestWithContext () verb ''://x'' p) = Some ''missing protocol scheme''"
    for verb p
    by (simp_all add: example_NewRequestWithContext_def example_NewRequest_def HasPrefix_def)
  show ?thesis
    using verb_helpers_construction_failure [of example_NewRequest "''://x''"
        "''missing protocol scheme''" "observed example_client" "observed_call [example_double]"
        "([], [])" example_NewRequestWithContext "()" "Some ''{}''"]
    by (simp add: h)
qed

subsection \<open>\<^verbatim>\<open>Path\<close> and \<^verbatim>\<open>Pathf\<close>\<close>

lemma TrimRight_replicate:
  "TrimRight s [x] @ replicate (length (takeWhile (\<lambda>y. y = x) (rev s))) x = s"
proof -
  have "takeWhile (\<lambda>y. y = x) (rev s) = replicate (length (takeWhile (\<lambda>y. y = x) (rev s))) x"
    by (rule replicate_length_same [symmetric]) (auto dest: set_takeWhileD)
  then have "rev s = replicate (length (takeWhile (\<lambda>y. y = x) (rev s))) x @ dropWhile (\<lambda>y. y = x) (rev s)"
    by (metis takeWhile_dropWhile_id)
  then have "s = rev (dropWhile (\<lambda>y. y = x) (rev s)) @ replicate (length (takeWhile (\<lambda>y. y = x) (rev s))) x"
    by (metis rev_append rev_replicate rev_rev_ident)
  then show ?thesis
    by (simp add: TrimRight_def)
qed

lemma TrimRight_no_trailing: "TrimRight s [x] \<noteq> p @ [x]"
proof
  assume "TrimRight s [x] = p @ [x]"
  then have "rev (rev (dropWhile (\<lambda>y. y = x) (rev s))) = rev (p @ [x])"
    by (simp add: TrimRight_def)
  then have d: "dropWhile (\<lambda>y. y = x) (rev s) = x # rev p"
    by simp
  then have "dropWhile (\<lambda>y. y = x) (rev s) \<noteq> []"
    by simp
  then have "hd (dropWhile (\<lambda>y. y = x) (rev s)) \<noteq> x"
    by (rule hd_dropWhile)
  with d show False
    by simp
qed

text \<open>
  Claim C3. With the base \<^verbatim>\<open>"http://base/"\<close>, \<^verbatim>\<open>Path("/a/b")\<close> is computed by
  \<^verbatim>\<open>path.Join\<close>, whose \<^verbatim>\<open>Clean\<close> replaces the two slashes after the scheme by one:
  the result is \<^verbatim>\<open>"http:/base/a/b"\<close>, not \<^verbatim>\<open>"http://base/a/b"\<close>.
\<close>

theorem Path_collapses_scheme_slashes:
  "Path \<lparr>client = t, baseURL = ''http://base/'', mw = ms\<rparr> ''/a/b'' = ''http:/base/a/b''
   \<and> Path \<lparr>client = t, baseURL = ''http://base/'', mw = ms\<rparr> ''/a/b'' \<noteq> ''http://base/a/b''"
proof -
  have "Join [''http://base'', ''a/b''] = ''http:/base/a/b''"
    by (simp add: Join_def Clean_def)
  then show ?thesis
    by (simp add: Path_def HasPrefix_def TrimRight_def TrimLeft_def)
qed

text \<open>
  Claim C6. A path that begins with \<^verbatim>\<open>"http"\<close> is returned unchanged, whatever the base
  URL of the client is; so \<^verbatim>\<open>Path("http://x/y")\<close> is \<^verbatim>\<open>"http://x/y"\<close> with the base
  \<^verbatim>\<open>"http://base/"\<close>.
\<close>

theorem Path_absolute_unchanged:
  assumes "HasPrefix p ''http''"
  shows "Path c p = p \<and> Path c p = Path (c\<lparr>baseURL := base\<rparr>) p"
  using assms by (simp add: Path_def)

theorem Path_absolute_unchanged_witness:
  "HasPrefix ''http://x/y'' ''http''
   \<and> Path \<lparr>client = example_send, baseURL = ''http://base/'', mw = []\<rparr> ''http://x/y'' = ''http://x/y''"
proof -
  have h: "HasPrefix ''http://x/y'' ''http''"
    by (simp add: HasPrefix_def)
  show ?thesis
    using h Path_absolute_unchanged [OF h, of "\<lparr>client = example_send, baseURL = ''http://base/'', mw = []\<rparr>"]
    by simp
qed

text \<open>
  Claim C7. For every base URL, \<^verbatim>\<open>Path("")\<close> is the base without its trailing slashes:
  the base is the result followed by slashes only, and the result does not end in a
  slash. With the base \<^verbatim>\<open>"http://base/"\<close> it is \<^verbatim>\<open>"http://base"\<close>.
\<close>

theorem Path_empty_is_trimmed_base:
  "Path c [] = TrimRight (baseURL c) ''/''
   \<and> (\<exists>n. baseURL c = Path c [] @ replicate n CHR ''/'')
   \<and> (\<nexists>p. Path c [] = p @ ''/'')
   \<and> Path \<lparr>client = t, baseURL = ''http://base/'', mw = ms\<rparr> [] = ''http://base''"
proof -
  have a: "Path c [] = TrimRight (baseURL c) ''/''"
    by (simp add: Path_def HasPrefix_def)
  have b: "\<exists>n. baseURL c = Path c [] @ replicate n CHR ''/''"
    unfolding a using TrimRight_replicate [of "baseURL c" "CHR ''/''"] by metis
  have c: "\<nexists>p. Path c [] = p @ ''/''"
    unfolding a using TrimRight_no_trailing [of "baseURL c" "CHR ''/''"] by blast
  have d: "Path \<lparr>client = t, baseURL = ''http://base/'', mw = ms\<rparr> [] = ''http://base''"
    by (simp add: Path_def HasPrefix_def TrimRight_def)
  from a b c d show ?thesis by blast
qed

text \<open>
  Claim C8. For every formatting function, format and argument list, \<^verbatim>\<open>Pathf\<close> is
  \<^verbatim>\<open>Path\<close> of the formatted string.
\<close>

theorem Pathf_is_Path_of_Sprintf:
  "Pathf Sprintf c url v = Path c (Sprintf url v)"
  by (simp add: Pathf_def)

text \<open>
  Claim C9. The test for an absolute URL is the test for the four bytes \<^verbatim>\<open>"http"\<close> at
  the start: every string that begins with them is returned unchanged, for every client,
  \<^verbatim>\<open>"https://x/y"\<close> and \<^verbatim>\<open>"httpfoo"\<close> among them.
\<close>

theorem Path_http_prefix_literal:
  "Path c (''http'' @ rest) = ''http'' @ rest
   \<and> Path c ''https://x/y'' = ''https://x/y''
   \<and> Path c ''httpfoo'' = ''httpfoo''
   \<and> HasPrefix p ''http'' = (\<exists>rest. p = ''http'' @ rest)"
proof -
  have "HasPrefix p ''http'' = (\<exists>rest. p = ''http'' @ rest)"
    unfolding HasPrefix_def by (metis append_eq_conv_conj length_append le_add1)
  then show ?thesis
    by (simp add: Path_def HasPrefix_def)
qed

subsection \<open>\<^verbatim>\<open>DecodeJSON\<close>\<close>

text \<open>
  Claim C4, as stated, fails: the variable that \<^verbatim>\<open>DecodeJSON\<close> returns is the target of
  the decoder, so a decoder that has stored a member before it reports an error makes
  \<^verbatim>\<open>DecodeJSON\<close> return a partly populated value with the error.
\<close>

theorem DecodeJSON_partial_value_counterexample:
  "DecodeJSON example_Decode \<lparr>A = 0, B = 0\<rparr>
     \<lparr>Body = Scanned [(''a'', JNumber 1), (''b'', JString ''x'')]\<rparr>
   = (\<lparr>A = 1, B = 0\<rparr>, Some (UnmarshalTypeError ''b''))
   \<and> fst (DecodeJSON example_Decode \<lparr>A = 0, B = 0\<rparr>
         \<lparr>Body = Scanned [(''a'', JNumber 1), (''b'', JString ''x'')]\<rparr>)
       \<noteq> \<lparr>A = 0, B = 0\<rparr>"
  by (simp add: DecodeJSON_def)

text \<open>
  Claim C4, amended. \<^verbatim>\<open>DecodeJSON\<close> returns what the decoder produced: its error
  unchanged, so that a failure is never returned as a success, and the target as the
  decoder left it, which is the zero value when the decoder failed before it stored
  anything.
\<close>

theorem DecodeJSON_returns_what_Decode_left:
  "DecodeJSON Decode zero r = Decode (Body r) zero
   \<and> (snd (DecodeJSON Decode zero r) = None) = (snd (Decode (Body r) zero) = None)
   \<and> (Decode (Body r) zero = (zero, Some err) \<longrightarrow> DecodeJSON Decode zero r = (zero, Some err))"
  by (simp add: DecodeJSON_def split: prod.splits option.splits)

theorem DecodeJSON_returns_what_Decode_left_witness:
  "example_Decode (Body \<lparr>Body = Malformed\<rparr>) \<lparr>A = 0, B = 0\<rparr> = (\<lparr>A = 0, B = 0\<rparr>, Some SyntaxError)
   \<and> DecodeJSON example_Decode \<lparr>A = 0, B = 0\<rparr> \<lparr>Body = Malformed\<rparr> = (\<lparr>A = 0, B = 0\<rparr>, Some SyntaxError)"
  using DecodeJSON_returns_what_Decode_left [of example_Decode "\<lparr>A = 0, B = 0\<rparr>"
      "\<lparr>Body = Malformed\<rparr>" SyntaxError]
  by simp

subsection \<open>The state of the client\<close>


end
